theory Spec2Isabelle
  imports Main "HOL-Library.AList"
begin

section \<open>JavaScript values\<close>

text \<open>
  The values that reach the code as parsed JSON, or as the result of reading a property.
  \<open>Undefined\<close> is what reading an absent property gives. Numbers only ever meet
  \<open>typeof\<close> and \<open>===\<close> against non-numbers here, so their payload is an integer.
  An object is the list of its own properties, in order.
\<close>

datatype jsval =
    Undefined
  | Null
  | Bool bool
  | Num int
  | Str string
  | Arr "jsval list"
  | Obj "(string \<times> jsval) list"

text \<open>\<^verbatim>\<open>typeof v\<close>, for the values above.\<close>

fun typeof :: "jsval \<Rightarrow> string" where
  "typeof Undefined = ''undefined''"
| "typeof Null = ''object''"
| "typeof (Bool b) = ''boolean''"
| "typeof (Num n) = ''number''"
| "typeof (Str s) = ''string''"
| "typeof (Arr xs) = ''object''"
| "typeof (Obj ps) = ''object''"

text \<open>\<^verbatim>\<open>Array.isArray(v)\<close>.\<close>

fun isArray :: "jsval \<Rightarrow> bool" where
  "isArray (Arr xs) = True"
| "isArray v = False"

text \<open>
  The decimal rendering of a non-negative integer, as a template literal
  \<^verbatim>\<open>`${i + 1}`\<close> produces it.
\<close>

definition digit_char :: "nat \<Rightarrow> char" where
  "digit_char d = char_of (48 + d)"

function show_nat :: "nat \<Rightarrow> string" where
  "show_nat n = (if n < 10 then [digit_char n] else show_nat (n div 10) @ [digit_char (n mod 10)])"
  by pat_completeness auto
termination
  by (relation "measure (\<lambda>n. n)") auto

declare show_nat.simps [simp del]

text \<open>
  \<^verbatim>\<open>v[key]\<close> on a value that passed \<^verbatim>\<open>typeof v === "object" && v !== null\<close>: an own
  property of an object; an index or \<^verbatim>\<open>length\<close> of an array. Properties inherited
  from a prototype (a key such as \<^verbatim>\<open>constructor\<close>) are not modelled.
\<close>

fun get_prop :: "jsval \<Rightarrow> string \<Rightarrow> jsval" where
  "get_prop (Obj ps) key = (case map_of ps key of None \<Rightarrow> Undefined | Some v \<Rightarrow> v)"
| "get_prop (Arr xs) key =
     (if key = ''length'' then Num (int (length xs))
      else (case find (\<lambda>i. show_nat i = key) [0..<length xs] of
              None \<Rightarrow> Undefined
            | Some i \<Rightarrow> xs ! i))"
| "get_prop v key = Undefined"

section \<open>Form definitions\<close>

text \<open>
  \<^verbatim>\<open>FormField\<close> of \<^verbatim>\<open>lib/firestore\<close> and the type of the entries of its
  \<^verbatim>\<open>fields\<close>. An absent \<^verbatim>\<open>required\<close> reads as false; an absent \<^verbatim>\<open>options\<close> or
  \<^verbatim>\<open>fields\<close> is \<open>None\<close>. An option is its pair \<open>(value, label)\<close>.
\<close>

datatype field_type = Text | Date | Dropdown | Checkbox | Dynamic

record NestedField =
  n_id :: string
  n_type :: field_type
  n_label :: string
  n_required :: bool
  n_placeholder :: "string option"
  n_options :: "(string \<times> string) list option"

record FormField =
  f_id :: string
  f_type :: field_type
  f_label :: string
  f_required :: bool
  f_placeholder :: "string option"
  f_options :: "(string \<times> string) list option"
  f_order :: int
  f_fields :: "NestedField list option"

section \<open>Validation of a submission (the POST handler of a form's submissions)\<close>

text \<open>
  \<^verbatim>\<open>v === undefined || v === null || v === ""\<close>, the test both required checks use;
  the type checks run under its negation.
\<close>

definition is_blank :: "jsval \<Rightarrow> bool" where
  "is_blank v = (v = Undefined \<or> v = Null \<or> v = Str '''')"

text \<open>
  \<^verbatim>\<open>options && !options.some((opt) => opt.value === value)\<close> for a string \<open>value\<close>:
  an absent \<^verbatim>\<open>options\<close> is falsy, an empty array is truthy.
\<close>

definition not_an_option :: "(string \<times> string) list option \<Rightarrow> string \<Rightarrow> bool" where
  "not_an_option options s =
     (case options of None \<Rightarrow> False | Some opts \<Rightarrow> \<not> list_ex (\<lambda>opt. fst opt = s) opts)"

text \<open>
  The \<^verbatim>\<open>switch\<close> on the type of a nested field: the messages it pushes for a value
  that is not blank. \<open>suffix\<close> is \<^verbatim>\<open>" for entry ${i + 1}"\<close>. There is no case for
  \<^verbatim>\<open>dynamic\<close>.
\<close>

definition nested_type_check :: "string \<Rightarrow> string \<Rightarrow> NestedField \<Rightarrow> jsval \<Rightarrow> string list" where
  "nested_type_check flabel suffix nf nestedValue =
     (case n_type nf of
        Checkbox \<Rightarrow>
          (if typeof nestedValue \<noteq> ''boolean''
           then [flabel @ '' - '' @ n_label nf @ '' must be a boolean'' @ suffix] else [])
      | Text \<Rightarrow>
          (if typeof nestedValue \<noteq> ''string''
           then [flabel @ '' - '' @ n_label nf @ '' must be a string'' @ suffix] else [])
      | Date \<Rightarrow>
          (if typeof nestedValue \<noteq> ''string''
           then [flabel @ '' - '' @ n_label nf @ '' must be a date string'' @ suffix] else [])
      | Dropdown \<Rightarrow>
          (case nestedValue of
             Str s \<Rightarrow>
               (if not_an_option (n_options nf) s
                then [flabel @ '' - '' @ n_label nf @ '' must be one of the allowed options'' @ suffix]
                else [])
           | _ \<Rightarrow> [flabel @ '' - '' @ n_label nf @ '' must be a string'' @ suffix])
      | Dynamic \<Rightarrow> [])"

text \<open>
  One iteration of \<^verbatim>\<open>for (const nestedField of field.fields)\<close>, on the array
  \<^verbatim>\<open>errors\<close>: the required check pushes and \<^verbatim>\<open>continue\<close>s, otherwise the type check
  runs on a value that is not blank.
\<close>

definition nested_field_step :: "string \<Rightarrow> nat \<Rightarrow> jsval \<Rightarrow> NestedField \<Rightarrow> string list \<Rightarrow> string list" where
  "nested_field_step flabel i entry nf errors =
     (let nestedValue = get_prop entry (n_id nf);
          suffix = '' for entry '' @ show_nat (i + 1)
      in if n_required nf \<and> is_blank nestedValue
         then errors @ [flabel @ '' - '' @ n_label nf @ '' is required'' @ suffix]
         else if \<not> is_blank nestedValue
         then errors @ nested_type_check flabel suffix nf nestedValue
         else errors)"

primrec nested_fields_loop :: "string \<Rightarrow> nat \<Rightarrow> jsval \<Rightarrow> NestedField list \<Rightarrow> string list \<Rightarrow> string list" where
  "nested_fields_loop flabel i entry [] errors = errors"
| "nested_fields_loop flabel i entry (nf # nfs) errors =
     nested_fields_loop flabel i entry nfs (nested_field_step flabel i entry nf errors)"

text \<open>
  One iteration of \<^verbatim>\<open>for (let i = 0; i < value.length; i++)\<close>: an entry that is not
  an object gets one message and is skipped; otherwise the nested fields are checked.
\<close>

definition entry_step :: "string \<Rightarrow> NestedField list \<Rightarrow> nat \<Rightarrow> jsval \<Rightarrow> string list \<Rightarrow> string list" where
  "entry_step flabel nfs i entry errors =
     (if typeof entry \<noteq> ''object'' \<or> entry = Null
      then errors @ [flabel @ '' entry '' @ show_nat (i + 1) @ '' must be an object'']
      else nested_fields_loop flabel i entry nfs errors)"

primrec entries_loop :: "string \<Rightarrow> NestedField list \<Rightarrow> nat \<Rightarrow> jsval list \<Rightarrow> string list \<Rightarrow> string list" where
  "entries_loop flabel nfs i [] errors = errors"
| "entries_loop flabel nfs i (entry # rest) errors =
     entries_loop flabel nfs (i + 1) rest (entry_step flabel nfs i entry errors)"

text \<open>The \<^verbatim>\<open>switch\<close> on the type of a field that is not dynamic.\<close>

definition type_check :: "FormField \<Rightarrow> jsval \<Rightarrow> string list" where
  "type_check field v =
     (case f_type field of
        Checkbox \<Rightarrow>
          (if typeof v \<noteq> ''boolean'' then [f_label field @ '' must be a boolean''] else [])
      | Text \<Rightarrow>
          (if typeof v \<noteq> ''string'' then [f_label field @ '' must be a string''] else [])
      | Date \<Rightarrow>
          (if typeof v \<noteq> ''string'' then [f_label field @ '' must be a date string''] else [])
      | Dropdown \<Rightarrow>
          (case v of
             Str s \<Rightarrow>
               (if not_an_option (f_options field) s
                then [f_label field @ '' must be one of the allowed options''] else [])
           | _ \<Rightarrow> [f_label field @ '' must be a string''])
      | Dynamic \<Rightarrow> [])"

text \<open>
  One iteration of \<^verbatim>\<open>for (const field of form.fields)\<close>, on the array \<^verbatim>\<open>errors\<close>.
  \<open>data\<close> is the submitted object after the extra keys were deleted.
\<close>

definition field_step :: "(string \<times> jsval) list \<Rightarrow> FormField \<Rightarrow> string list \<Rightarrow> string list" where
  "field_step data field errors =
     (let v = get_prop (Obj data) (f_id field) in
      if f_type field = Dynamic then
        (if f_required field \<and> (\<not> isArray v \<or> v = Arr [])
         then errors @ [f_label field @ '' is required'']
         else (case (v, f_fields field) of
                 (Arr entries, Some nfs) \<Rightarrow> entries_loop (f_label field) nfs 0 entries errors
               | _ \<Rightarrow>
                   (if v \<noteq> Undefined \<and> v \<noteq> Null \<and> \<not> isArray v
                    then errors @ [f_label field @ '' must be an array'']
                    else errors)))
      else if f_required field \<and> is_blank v
      then errors @ [f_label field @ '' is required'']
      else if \<not> is_blank v
      then errors @ type_check field v
      else errors)"

primrec fields_loop :: "(string \<times> jsval) list \<Rightarrow> FormField list \<Rightarrow> string list \<Rightarrow> string list" where
  "fields_loop data [] errors = errors"
| "fields_loop data (field # rest) errors = fields_loop data rest (field_step data field errors)"

text \<open>
  The loop over \<^verbatim>\<open>submittedKeys\<close>: \<^verbatim>\<open>delete data[key]\<close> for every key that is not
  the id of a field of the form.
\<close>

definition strip_extra_keys :: "FormField list \<Rightarrow> (string \<times> jsval) list \<Rightarrow> (string \<times> jsval) list" where
  "strip_extra_keys form_fields data = filter (\<lambda>kv. fst kv \<in> set (map f_id form_fields)) data"

text \<open>
  The handler from the point where the form was found: \<open>data\<close> is the object of the
  request body (the submission's wire contract; an array as \<open>data\<close> is not modelled).
  The answer is either status 400 with the messages, or the call
  \<^verbatim>\<open>saveFormResult(formId, data)\<close> with what is left of \<open>data\<close>.
\<close>

datatype response =
    ValidationFailed "string list"
  | Saved "(string \<times> jsval) list"

definition POST :: "FormField list \<Rightarrow> (string \<times> jsval) list \<Rightarrow> response" where
  "POST form_fields data0 =
     (let data = strip_extra_keys form_fields data0;
          errors = fields_loop data form_fields []
      in if length errors > 0 then ValidationFailed errors else Saved data)"

section \<open>The agent builder\<close>

text \<open>
  \<^verbatim>\<open>createAgent(definition, deps).run(input)\<close> of \<^verbatim>\<open>lib/agentBuilder\<close>.

  The caller's input is an object with an identity, and the run builds a new object
  from it, so the objects live in a store: an object is the list of its own properties,
  a property holds a primitive value (nested data by value) or a reference. The store
  only grows: \<open>alloc\<close> appends, and an address is an index into it. Reading an
  address that was never allocated gives an object with no property.
\<close>

type_synonym addr = nat

datatype hval = Prim jsval | Ref addr

type_synonym object = "(string \<times> hval) list"

type_synonym heap = "object list"

definition cell :: "heap \<Rightarrow> addr \<Rightarrow> object" where
  "cell h a = (if a < length h then h ! a else [])"

definition alloc :: "heap \<Rightarrow> object \<Rightarrow> addr \<times> heap" where
  "alloc h ob = (length h, h @ [ob])"

text \<open>
  \<^verbatim>\<open>ob[key]\<close> and \<^verbatim>\<open>{...ob, key: v}\<close>'s last step on the copied properties: an
  existing key keeps its place and takes the new value, a new key goes last.
\<close>

definition read_prop :: "object \<Rightarrow> string \<Rightarrow> hval" where
  "read_prop ob key = (case map_of ob key of None \<Rightarrow> Prim Undefined | Some v \<Rightarrow> v)"

definition set_prop :: "object \<Rightarrow> string \<Rightarrow> hval \<Rightarrow> object" where
  "set_prop ob key v = AList.update key v ob"

text \<open>
  The properties \<^verbatim>\<open>{...v}\<close> copies from \<open>v\<close>: those of the object a reference
  points to, the entries of nested data, the indexed characters of a string, nothing for
  the other primitives.
\<close>

fun own_props :: "heap \<Rightarrow> hval \<Rightarrow> object" where
  "own_props h (Ref a) = cell h a"
| "own_props h (Prim (Obj ps)) = map (\<lambda>(k, v). (k, Prim v)) ps"
| "own_props h (Prim (Arr xs)) = map (\<lambda>(i, v). (show_nat i, Prim v)) (enumerate 0 xs)"
| "own_props h (Prim (Str s)) = map (\<lambda>(i, c). (show_nat i, Prim (Str [c]))) (enumerate 0 s)"
| "own_props h (Prim v) = []"

text \<open>
  What a \<^verbatim>\<open>throw\<close> carries: \<^verbatim>\<open>new Error(message)\<close>, or any other value
  (\<^verbatim>\<open>error\<close> is \<^verbatim>\<open>unknown\<close> in the catch clause).
\<close>

datatype thrown = Error string | Thrown jsval

text \<open>
  \<^verbatim>\<open>AgentDefinition\<close>, \<^verbatim>\<open>AgentOutput\<close> and the sandbox handle \<^verbatim>\<open>{ id: string }\<close>.
  An absent \<^verbatim>\<open>requiresSandbox\<close> reads as false, an absent \<^verbatim>\<open>metadata\<close> is
  \<open>None\<close>, an absent \<^verbatim>\<open>rawModelResponse\<close> is \<open>Undefined\<close>. The output is the fresh
  object the executor returns (an object literal in \<^verbatim>\<open>createGeminiExecutor\<close>); nothing
  else holds it, so it is passed by value and \<^verbatim>\<open>output.metadata = ...\<close> is a record
  update.
\<close>

record SandboxConfig =
  cpu :: "int option"
  memoryGb :: "int option"
  diskGb :: "int option"
  autoStopMinutes :: "int option"
  ephemeral :: "bool option"

record AgentDefinition =
  systemPrompt :: string
  requiresSandbox :: bool
  sandboxConfig :: "SandboxConfig option"

record AgentOutput =
  o_text :: string
  rawModelResponse :: jsval
  metadata :: "(string \<times> jsval) list option"

record SandboxHandle =
  handle_id :: string

text \<open>
  The argument of \<^verbatim>\<open>trackAgentCall\<close>; \<open>tp_input\<close> is the address of the input object
  the run holds at that moment.
\<close>

record TrackParams =
  tp_definition :: AgentDefinition
  tp_input :: addr
  tp_output :: "AgentOutput option"
  tp_error :: "thrown option"
  tp_durationMs :: int
  tp_sandboxId :: "string option"

text \<open>
  The collaborators. Each call is awaited, so the run is sequential: a call takes the
  world \<^typ>\<open>'w\<close> outside the run as it is, throws or returns, and leaves the world
  changed. A collaborator that is handed an input reads it in the store it is given; it
  has no way to write the store. \<^verbatim>\<open>runCommand\<close> is never called by the run and is left
  out.
\<close>

type_synonym ('a, 'w) effect = "'w \<Rightarrow> (thrown + 'a) \<times> 'w"

type_synonym 'w GeminiExecutor = "string \<Rightarrow> addr \<Rightarrow> heap \<Rightarrow> (AgentOutput, 'w) effect"

record 'w DaytonaSandboxManager =
  createSandbox :: "SandboxConfig option \<Rightarrow> (SandboxHandle, 'w) effect"
  stopSandbox :: "string \<Rightarrow> (unit, 'w) effect"

type_synonym 'w ObservabilityClient = "TrackParams \<Rightarrow> heap \<Rightarrow> (unit, 'w) effect"

record 'w AgentDeps =
  gemini :: "'w GeminiExecutor"
  daytona :: "'w DaytonaSandboxManager option"
  observability :: "'w ObservabilityClient option"

text \<open>
  The state of a run: the store, the world outside, and the calls made to the
  collaborators so far, in order, each with its arguments.
\<close>

datatype call =
    CreateSandbox "SandboxConfig option"
  | GeminiRun string addr
  | TrackAgentCall TrackParams
  | StopSandbox string

record 'w state =
  store :: heap
  world :: 'w
  calls :: "call list"

text \<open>
  \<^verbatim>\<open>await f(...)\<close>, recorded as the call \<open>c\<close>; and \<^verbatim>\<open>Date.now()\<close>, a reading of the
  world's clock (which is free to go backwards: it is the wall clock).
\<close>

definition call_external :: "call \<Rightarrow> ('a, 'w) effect \<Rightarrow> 'w state \<Rightarrow> (thrown + 'a) \<times> 'w state" where
  "call_external c f s =
     (case f (world s) of (r, w) \<Rightarrow> (r, s\<lparr>world := w, calls := calls s @ [c]\<rparr>))"

definition Date_now :: "('w \<Rightarrow> int \<times> 'w) \<Rightarrow> 'w state \<Rightarrow> int \<times> 'w state" where
  "Date_now now s = (case now (world s) of (t, w) \<Rightarrow> (t, s\<lparr>world := w\<rparr>))"

text \<open>
  \<^verbatim>\<open>input = { ...input, context: { ...(input.context ?? {}), sandboxId } }\<close>: two new
  objects; the variable \<^verbatim>\<open>input\<close> then holds the address of the outer one. The empty
  object of \<^verbatim>\<open>?? {}\<close> is garbage at once and is not allocated.
\<close>

definition enrich_input :: "addr \<Rightarrow> string \<Rightarrow> heap \<Rightarrow> addr \<times> heap" where
  "enrich_input input sandboxId h =
     (let context = read_prop (cell h input) ''context'';
          spread = (if context = Prim Undefined \<or> context = Prim Null then []
                    else own_props h context);
          (c, h1) = alloc h (set_prop spread ''sandboxId'' (Prim (Str sandboxId)))
      in alloc h1 (set_prop (cell h input) ''context'' (Ref c)))"

text \<open>
  The first statement of the \<^verbatim>\<open>try\<close> block. Besides its result it gives the values of
  the variables \<^verbatim>\<open>input\<close> and \<^verbatim>\<open>sandboxId\<close> that the \<^verbatim>\<open>catch\<close> and
  \<^verbatim>\<open>finally\<close> blocks read.
\<close>

definition acquire_sandbox ::
  "AgentDefinition \<Rightarrow> 'w AgentDeps \<Rightarrow> addr \<Rightarrow> 'w state
     \<Rightarrow> (thrown + unit) \<times> (addr \<times> string option) \<times> 'w state" where
  "acquire_sandbox defn deps input s =
     (if requiresSandbox defn then
        (case daytona deps of
           None \<Rightarrow>
             (Inl (Error ''Agent requires a sandbox, but no DaytonaSandboxManager was provided.''),
              (input, None), s)
         | Some d \<Rightarrow>
             (case call_external (CreateSandbox (sandboxConfig defn))
                     (createSandbox d (sandboxConfig defn)) s of
                (Inl error, s1) \<Rightarrow> (Inl error, (input, None), s1)
              | (Inr sandbox, s1) \<Rightarrow>
                  (case enrich_input input (handle_id sandbox) (store s1) of
                     (input', h) \<Rightarrow>
                       (Inr (), (input', Some (handle_id sandbox)), s1\<lparr>store := h\<rparr>))))
      else (Inr (), (input, None), s))"

text \<open>
  \<^verbatim>\<open>output.metadata = { ...(output.metadata ?? {}), durationMs, sandboxId }\<close>; the key
  \<^verbatim>\<open>sandboxId\<close> is written also when the variable is \<^verbatim>\<open>undefined\<close>.
\<close>

definition attach_metadata :: "AgentOutput \<Rightarrow> int \<Rightarrow> string option \<Rightarrow> AgentOutput" where
  "attach_metadata output durationMs sandboxId =
     output\<lparr>metadata :=
       Some (AList.update ''sandboxId'' (case sandboxId of None \<Rightarrow> Undefined | Some i \<Rightarrow> Str i)
              (AList.update ''durationMs'' (Num durationMs)
                (case metadata output of None \<Rightarrow> [] | Some m \<Rightarrow> m)))\<rparr>"

text \<open>
  The rest of the \<^verbatim>\<open>try\<close> block: the call of the executor, the metadata, and the
  success notification, which stands in the \<^verbatim>\<open>try\<close> block with no handler of its
  own, so what it throws is thrown by the block.
\<close>

definition call_gemini ::
  "('w \<Rightarrow> int \<times> 'w) \<Rightarrow> AgentDefinition \<Rightarrow> 'w AgentDeps \<Rightarrow> int \<Rightarrow> addr \<Rightarrow> string option
     \<Rightarrow> 'w state \<Rightarrow> (thrown + AgentOutput) \<times> 'w state" where
  "call_gemini now defn deps start input sandboxId s =
     (case call_external (GeminiRun (systemPrompt defn) input)
             (gemini deps (systemPrompt defn) input (store s)) s of
        (Inl error, s1) \<Rightarrow> (Inl error, s1)
      | (Inr output0, s1) \<Rightarrow>
          (case Date_now now s1 of
             (t, s2) \<Rightarrow>
               (let durationMs = t - start;
                    output = attach_metadata output0 durationMs sandboxId
                in (case observability deps of
                      None \<Rightarrow> (Inr output, s2)
                    | Some obs \<Rightarrow>
                        (let params = \<lparr>tp_definition = defn, tp_input = input,
                                       tp_output = Some output, tp_error = None,
                                       tp_durationMs = durationMs, tp_sandboxId = sandboxId\<rparr>
                         in (case call_external (TrackAgentCall params) (obs params (store s2)) s2 of
                               (Inl error, s3) \<Rightarrow> (Inl error, s3)
                             | (Inr u, s3) \<Rightarrow> (Inr output, s3)))))))"

definition try_block ::
  "('w \<Rightarrow> int \<times> 'w) \<Rightarrow> AgentDefinition \<Rightarrow> 'w AgentDeps \<Rightarrow> int \<Rightarrow> addr
     \<Rightarrow> 'w state \<Rightarrow> (thrown + AgentOutput) \<times> (addr \<times> string option) \<times> 'w state" where
  "try_block now defn deps start input s =
     (case acquire_sandbox defn deps input s of
        (Inl error, vars, s1) \<Rightarrow> (Inl error, vars, s1)
      | (Inr u, (input', sandboxId), s1) \<Rightarrow>
          (case call_gemini now defn deps start input' sandboxId s1 of
             (r, s2) \<Rightarrow> (r, (input', sandboxId), s2)))"

text \<open>
  The \<^verbatim>\<open>catch\<close> block: the failure notification, whose own error is swallowed, then
  \<^verbatim>\<open>throw error\<close>.
\<close>

definition catch_block ::
  "('w \<Rightarrow> int \<times> 'w) \<Rightarrow> AgentDefinition \<Rightarrow> 'w AgentDeps \<Rightarrow> int \<Rightarrow> addr \<Rightarrow> string option
     \<Rightarrow> thrown \<Rightarrow> 'w state \<Rightarrow> (thrown + AgentOutput) \<times> 'w state" where
  "catch_block now defn deps start input sandboxId error s =
     (case Date_now now s of
        (t, s1) \<Rightarrow>
          (let durationMs = t - start
           in (case observability deps of
                 None \<Rightarrow> (Inl error, s1)
               | Some obs \<Rightarrow>
                   (let params = \<lparr>tp_definition = defn, tp_input = input,
                                  tp_output = None, tp_error = Some error,
                                  tp_durationMs = durationMs, tp_sandboxId = sandboxId\<rparr>
                    in (case call_external (TrackAgentCall params) (obs params (store s1)) s1 of
                          (r, s2) \<Rightarrow> (Inl error, s2))))))"

text \<open>
  The \<^verbatim>\<open>finally\<close> block: \<^verbatim>\<open>if (sandboxId && daytona)\<close> is false for an undefined and
  for an empty \<^verbatim>\<open>sandboxId\<close>; what \<^verbatim>\<open>stopSandbox\<close> throws is swallowed.
\<close>

definition finally_block :: "'w AgentDeps \<Rightarrow> string option \<Rightarrow> 'w state \<Rightarrow> 'w state" where
  "finally_block deps sandboxId s =
     (case (sandboxId, daytona deps) of
        (Some sid, Some d) \<Rightarrow>
          (if sid \<noteq> '''' then snd (call_external (StopSandbox sid) (stopSandbox d sid) s) else s)
      | _ \<Rightarrow> s)"

text \<open>
  \<^verbatim>\<open>run\<close>: \<open>Inr\<close> is the output the promise resolves to, \<open>Inl\<close> what it rejects
  with. \<open>now\<close> is the clock behind \<^verbatim>\<open>Date.now()\<close>.
\<close>

definition run ::
  "('w \<Rightarrow> int \<times> 'w) \<Rightarrow> AgentDefinition \<Rightarrow> 'w AgentDeps \<Rightarrow> addr \<Rightarrow> 'w state
     \<Rightarrow> (thrown + AgentOutput) \<times> 'w state" where
  "run now defn deps input s0 =
     (case Date_now now s0 of
        (start, s1) \<Rightarrow>
          (case try_block now defn deps start input s1 of
             (r, (input', sandboxId), s2) \<Rightarrow>
               (case (case r of
                        Inr output \<Rightarrow> (Inr output, s2)
                      | Inl error \<Rightarrow> catch_block now defn deps start input' sandboxId error s2) of
                  (r', s3) \<Rightarrow> (r', finally_block deps sandboxId s3))))"

text \<open>The ids passed to \<^verbatim>\<open>stopSandbox\<close> among the calls, in order.\<close>

definition stop_calls :: "call list \<Rightarrow> string list" where
  "stop_calls cs = concat (map (\<lambda>c. case c of StopSandbox sid \<Rightarrow> [sid] | _ \<Rightarrow> []) cs)"

section \<open>Example collaborators and inputs\<close>

text \<open>
  A world that counts what happened in it, a clock that advances 5 ms per event, and
  collaborators that succeed or throw.
\<close>

definition ticking_clock :: "nat \<Rightarrow> int \<times> nat" where
  "ticking_clock w = (1000 + 5 * int w, Suc w)"

definition form_agent :: AgentDefinition where
  "form_agent = \<lparr>systemPrompt = ''You are a Form Generator Agent.'', requiresSandbox = True,
     sandboxConfig = Some \<lparr>cpu = Some 1, memoryGb = Some 2, diskGb = Some 2,
                           autoStopMinutes = Some 15, ephemeral = None\<rparr>\<rparr>"

definition ok_gemini :: "nat GeminiExecutor" where
  "ok_gemini prompt input h w =
     (Inr \<lparr>o_text = ''done'', rawModelResponse = Undefined,
           metadata = Some [(''tokens'', Obj [(''input'', Num 12), (''output'', Num 34)])]\<rparr>, Suc w)"

definition failing_gemini :: "nat GeminiExecutor" where
  "failing_gemini prompt input h w = (Inl (Error ''Gemini API error: quota exceeded''), Suc w)"

definition ok_daytona :: "nat DaytonaSandboxManager" where
  "ok_daytona = \<lparr>createSandbox = (\<lambda>config w. (Inr \<lparr>handle_id = ''sandbox-1''\<rparr>, Suc w)),
                 stopSandbox = (\<lambda>sandboxId w. (Inr (), Suc w))\<rparr>"

definition throwing_sink :: "nat ObservabilityClient" where
  "throwing_sink params h w = (Inl (Error ''Galileo unavailable''), Suc w)"

definition ok_sink :: "nat ObservabilityClient" where
  "ok_sink params h w = (Inr (), Suc w)"

definition start_state :: "nat state" where
  "start_state = \<lparr>store = [[(''hello'', Prim (Num 1))], [(''text'', Prim (Str ''A contact form'')), (''context'', Ref 0)]],
      world = 0, calls = []\<rparr>"

text \<open>
  An agent that needs no sandbox; an executor that reports a duration of its own; a
  manager whose handle has the empty id, and one that has no capacity; a clock that was
  set back between two readings.
\<close>

definition plain_agent :: AgentDefinition where
  "plain_agent = \<lparr>systemPrompt = ''You are a helpful assistant.'', requiresSandbox = False,
     sandboxConfig = None\<rparr>"

definition timed_gemini :: "nat GeminiExecutor" where
  "timed_gemini prompt input h w =
     (Inr \<lparr>o_text = ''done'', rawModelResponse = Undefined,
           metadata = Some [(''durationMs'', Num 999)]\<rparr>, Suc w)"

definition empty_id_daytona :: "nat DaytonaSandboxManager" where
  "empty_id_daytona = \<lparr>createSandbox = (\<lambda>config w. (Inr \<lparr>handle_id = ''''\<rparr>, Suc w)),
                       stopSandbox = (\<lambda>sandboxId w. (Inr (), Suc w))\<rparr>"

definition failing_daytona :: "nat DaytonaSandboxManager" where
  "failing_daytona = \<lparr>createSandbox = (\<lambda>config w. (Inl (Error ''no capacity''), Suc w)),
                       stopSandbox = (\<lambda>sandboxId w. (Inr (), Suc w))\<rparr>"

definition adjusted_clock :: "nat \<Rightarrow> int \<times> nat" where
  "adjusted_clock w = (1000 - 5 * int w, Suc w)"

text \<open>A form: a required text field, a required checkbox and a required group.\<close>

definition name_field :: FormField where
  "name_field =
     \<lparr>f_id = ''name'', f_type = Text, f_label = ''Full Name'', f_required = True,
      f_placeholder = None, f_options = None, f_order = 1, f_fields = None\<rparr>"

definition terms_field :: FormField where
  "terms_field =
     \<lparr>f_id = ''agree'', f_type = Checkbox, f_label = ''Agree to terms'', f_required = True,
      f_placeholder = None, f_options = None, f_order = 2, f_fields = None\<rparr>"

definition members_field :: FormField where
  "members_field =
     \<lparr>f_id = ''members'', f_type = Dynamic, f_label = ''Members'', f_required = True,
      f_placeholder = None, f_options = None, f_order = 3,
      f_fields = Some [\<lparr>n_id = ''email'', n_type = Text, n_label = ''Email'', n_required = True,
                        n_placeholder = None, n_options = None\<rparr>,
                       \<lparr>n_id = ''adult'', n_type = Checkbox, n_label = ''Adult'', n_required = False,
                        n_placeholder = None, n_options = None\<rparr>]\<rparr>"

section \<open>Validation: the loops as concatenations\<close>

text \<open>
  Every loop only appends to \<^verbatim>\<open>errors\<close>, so each is the concatenation of what its
  iterations push.
\<close>

lemma nested_field_step_append:
  "nested_field_step flabel i entry nf errors = errors @ nested_field_step flabel i entry nf []"
  by (simp add: nested_field_step_def Let_def)

lemma nested_fields_loop_concat:
  "nested_fields_loop flabel i entry nfs errors =
     errors @ concat (map (\<lambda>nf. nested_field_step flabel i entry nf []) nfs)"
proof (induction nfs arbitrary: errors)
  case Nil
  show ?case by simp
next
  case (Cons nf nfs)
  show ?case
    by (simp add: Cons.IH nested_field_step_append [of flabel i entry nf errors])
qed

lemma entry_step_append:
  "entry_step flabel nfs i entry errors = errors @ entry_step flabel nfs i entry []"
  by (simp add: entry_step_def nested_fields_loop_concat [of flabel i entry nfs errors]
      nested_fields_loop_concat [of flabel i entry nfs "[]"])

lemma entries_loop_concat:
  "entries_loop flabel nfs i entries errors =
     errors @ concat (map (\<lambda>(j, entry). entry_step flabel nfs j entry []) (enumerate i entries))"
proof (induction entries arbitrary: i errors)
  case Nil
  show ?case by simp
next
  case (Cons entry rest)
  show ?case
    by (simp add: Cons.IH entry_step_append [of flabel nfs i entry errors])
qed

lemma field_step_append:
  "field_step data field errors = errors @ field_step data field []"
  by (simp add: field_step_def Let_def entries_loop_concat [of _ _ 0 _ errors]
      entries_loop_concat [of _ _ 0 _ "[]"] split: jsval.splits option.splits)

lemma fields_loop_concat:
  "fields_loop data fs errors = errors @ concat (map (\<lambda>f. field_step data f []) fs)"
proof (induction fs arbitrary: errors)
  case Nil
  show ?case by simp
next
  case (Cons f fs)
  show ?case
    by (simp add: Cons.IH field_step_append [of data f errors])
qed

lemma map_of_strip:
  "map_of (strip_extra_keys fs data) k = (if k \<in> set (map f_id fs) then map_of data k else None)"
  unfolding strip_extra_keys_def
  by (induction data) auto

lemma length_nested_type_check: "length (nested_type_check flabel suffix nf v) \<le> 1"
  by (simp add: nested_type_check_def split: field_type.splits jsval.splits)

lemma fields_loop_split:
  "fields_loop data (before @ field # after) [] =
     fields_loop data before [] @ field_step data field [] @ fields_loop data after []"
  by (simp add: fields_loop_concat [of data _ "[]"])

lemma show_nat_digits:
  "show_nat (Suc 0) = ''1''" "show_nat (Suc (Suc 0)) = ''2''" "show_nat (Suc (Suc (Suc 0))) = ''3''"
  by code_simp+

section \<open>Validation: the claims\<close>

text \<open>
  C3, as stated: a group field whose submitted value is present, not null and not an
  array gets the message "<label> must be an array" instead of "<label> is required",
  whether or not the field is required. It fails for a required group: the required
  check comes first and \<^verbatim>\<open>continue\<close>s. Here the group \<open>members\<close> is required and
  the submitted value is a string.
\<close>

theorem required_group_wrong_type_counterexample:
  "POST [members_field] [(''members'', Str ''x'')] = ValidationFailed [''Members is required'']"
  by (simp add: POST_def strip_extra_keys_def members_field_def field_step_def Let_def)

text \<open>
  C3, amended: for a group field whose submitted value is present, not null and not an
  array, the field contributes exactly one message: "<label> must be an array" when the
  field is not required, "<label> is required" when it is.
\<close>

theorem group_wrong_type_message:
  assumes "f_type field = Dynamic"
    and "get_prop (Obj data) (f_id field) = v"
    and "v \<noteq> Undefined" and "v \<noteq> Null" and "\<not> isArray v"
  shows "field_step data field errors =
           errors @ [f_label field @ (if f_required field then '' is required'' else '' must be an array'')]"
  using assms by (cases v) (simp_all add: field_step_def Let_def)

theorem group_wrong_type_message_witness:
  "field_step [(''members'', Str ''x'')] (members_field\<lparr>f_required := False\<rparr>) [] =
     [''Members must be an array'']"
  using group_wrong_type_message
    [of "members_field\<lparr>f_required := False\<rparr>" "[(''members'', Str ''x'')]" "Str ''x''" "[]"]
  by (simp add: members_field_def)

text \<open>
  C6, as stated: every key of the submitted value tree whose id is not the id of a field
  of the form is absent from what is saved. Only the keys of the submitted object itself
  are compared with the ids of the form's fields; a key inside an entry of a group is
  never looked at. Here the entry of the group \<open>members\<close> carries the key
  \<open>nickname\<close>, which is no field of the form, and it is saved.
\<close>

theorem nested_unknown_key_is_saved_counterexample:
  "POST [members_field]
        [(''members'', Arr [Obj [(''email'', Str ''a@b.c''), (''nickname'', Str ''Al'')]])]
   = Saved [(''members'', Arr [Obj [(''email'', Str ''a@b.c''), (''nickname'', Str ''Al'')]])]"
  by (simp add: POST_def strip_extra_keys_def members_field_def field_step_def entry_step_def
      nested_field_step_def nested_type_check_def is_blank_def Let_def)

text \<open>
  C6, amended: a key of the submitted object that is not the id of a field of the form is
  absent from what is saved, and no message is reported for it: what is saved has only
  ids of fields as keys, each with the value that was submitted for it (so the entries of
  a group are saved as they came), and the answer to a submission is the answer to the
  same submission without the unknown key, messages included.
\<close>

theorem unknown_top_level_keys_dropped_silently:
  "(POST form_fields data = Saved d \<longrightarrow>
      fst ` set d \<subseteq> f_id ` set form_fields \<and> d = strip_extra_keys form_fields data
      \<and> (\<forall>k. k \<in> f_id ` set form_fields \<longrightarrow> map_of d k = map_of data k))
   \<and> (key \<notin> f_id ` set form_fields \<longrightarrow>
        POST form_fields (xs @ (key, v) # ys) = POST form_fields (xs @ ys))"
proof -
  have "strip_extra_keys form_fields (xs @ (key, v) # ys) = strip_extra_keys form_fields (xs @ ys)"
    if "key \<notin> f_id ` set form_fields"
    using that by (simp add: strip_extra_keys_def)
  then have "POST form_fields (xs @ (key, v) # ys) = POST form_fields (xs @ ys)"
    if "key \<notin> f_id ` set form_fields"
    using that by (simp add: POST_def)
  moreover have "fst ` set (strip_extra_keys form_fields data) \<subseteq> f_id ` set form_fields"
    by (auto simp add: strip_extra_keys_def)
  moreover have "map_of (strip_extra_keys form_fields data) k = map_of data k"
    if "k \<in> f_id ` set form_fields" for k
    using that by (simp add: map_of_strip)
  ultimately show ?thesis
    by (auto simp add: POST_def Let_def split: if_splits)
qed

theorem unknown_top_level_keys_dropped_silently_witness:
  "POST [name_field] [(''name'', Str ''Ann''), (''role'', Str ''admin'')] = Saved [(''name'', Str ''Ann'')]
   \<and> ''role'' \<notin> f_id ` set [name_field]
   \<and> POST [name_field] ([(''name'', Str ''Ann'')] @ (''role'', Str ''admin'') # []) =
       POST [name_field] ([(''name'', Str ''Ann'')] @ [])"
  using unknown_top_level_keys_dropped_silently
    [of "[name_field]" "[(''name'', Str ''Ann''), (''role'', Str ''admin'')]" "[(''name'', Str ''Ann'')]"
        "''role''" "[(''name'', Str ''Ann'')]" "Str ''admin''" "[]"]
  by (simp add: POST_def strip_extra_keys_def name_field_def field_step_def Let_def
      is_blank_def type_check_def)

text \<open>
  C7: for a group field and the array submitted for it, the loop over the nested fields
  visits every nested field of every entry that is an object (the messages of the field
  are those of each entry in turn, and for an entry those of each nested field in turn,
  none skipped after a violation); and a nested field contributes at most one message
  per entry: when it is required and its value is undefined, null or the empty string,
  that message is the required one and no type message follows.
\<close>

theorem nested_fields_all_visited_one_message_each:
  assumes "f_type field = Dynamic" and "f_fields field = Some nfs"
    and "get_prop (Obj data) (f_id field) = Arr entries"
    and "\<not> (f_required field \<and> entries = [])"
  shows "field_step data field errors =
           errors @ concat (map (\<lambda>(i, entry).
               if typeof entry \<noteq> ''object'' \<or> entry = Null
               then [f_label field @ '' entry '' @ show_nat (i + 1) @ '' must be an object'']
               else concat (map (\<lambda>nf. nested_field_step (f_label field) i entry nf []) nfs))
             (enumerate 0 entries))
       \<and> (\<forall>i entry nf. length (nested_field_step (f_label field) i entry nf []) \<le> 1
            \<and> (n_required nf \<and> is_blank (get_prop entry (n_id nf)) \<longrightarrow>
                 nested_field_step (f_label field) i entry nf [] =
                   [f_label field @ '' - '' @ n_label nf @ '' is required for entry '' @ show_nat (i + 1)]))"
proof -
  have "field_step data field errors = entries_loop (f_label field) nfs 0 entries errors"
    using assms by (auto simp add: field_step_def Let_def)
  also have "\<dots> = errors @ concat (map (\<lambda>(j, entry). entry_step (f_label field) nfs j entry [])
                        (enumerate 0 entries))"
    by (rule entries_loop_concat)
  also have "(\<lambda>(j, entry). entry_step (f_label field) nfs j entry []) =
             (\<lambda>(i, entry).
               if typeof entry \<noteq> ''object'' \<or> entry = Null
               then [f_label field @ '' entry '' @ show_nat (i + 1) @ '' must be an object'']
               else concat (map (\<lambda>nf. nested_field_step (f_label field) i entry nf []) nfs))"
    by (rule ext) (simp add: entry_step_def nested_fields_loop_concat [of _ _ _ _ "[]"] split: prod.splits)
  finally have loops: "field_step data field errors =
           errors @ concat (map (\<lambda>(i, entry).
               if typeof entry \<noteq> ''object'' \<or> entry = Null
               then [f_label field @ '' entry '' @ show_nat (i + 1) @ '' must be an object'']
               else concat (map (\<lambda>nf. nested_field_step (f_label field) i entry nf []) nfs))
             (enumerate 0 entries))" .
  have one: "length (nested_field_step flabel i entry nf []) \<le> 1" for flabel i entry nf
    using length_nested_type_check [of flabel _ nf "get_prop entry (n_id nf)"]
    by (simp add: nested_field_step_def Let_def)
  have req: "nested_field_step flabel i entry nf [] =
                   [flabel @ '' - '' @ n_label nf @ '' is required for entry '' @ show_nat (i + 1)]"
    if "n_required nf \<and> is_blank (get_prop entry (n_id nf))" for flabel i entry nf
    using that by (simp add: nested_field_step_def Let_def)
  show ?thesis
    using loops one req by blast
qed

theorem nested_fields_all_visited_one_message_each_witness:
  "field_step
     [(''members'', Arr [Obj [(''adult'', Str ''yes'')], Num 3,
                         Obj [(''email'', Str ''a@b.c''), (''adult'', Bool True)]])]
     members_field []
   = [''Members - Email is required for entry 1'',
      ''Members - Adult must be a boolean for entry 1'',
      ''Members entry 2 must be an object'']"
proof -
  let ?entries = "[Obj [(''adult'', Str ''yes'')], Num 3,
                   Obj [(''email'', Str ''a@b.c''), (''adult'', Bool True)]]"
  have h1: "f_type members_field = Dynamic"
    and h2: "f_fields members_field = Some (the (f_fields members_field))"
    and h3: "get_prop (Obj [(''members'', Arr ?entries)]) (f_id members_field) = Arr ?entries"
    and h4: "\<not> (f_required members_field \<and> ?entries = [])"
    by (simp_all add: members_field_def)
  from nested_fields_all_visited_one_message_each [OF h1 h2 h3 h4, of "[]"]
  show ?thesis
    by (simp add: members_field_def nested_field_step_def nested_type_check_def is_blank_def
        Let_def show_nat_digits)
qed

text \<open>
  C8: for a required group field whose submitted value is absent or an empty array, the
  field contributes exactly the one message "<label> is required", whatever its nested
  fields are, and the submission is refused with that message between those of the
  fields before and after it.
\<close>

theorem required_group_empty_or_absent:
  assumes "form_fields = before @ field # after"
    and "f_type field = Dynamic" and "f_required field"
    and "map_of data (f_id field) = None \<or> map_of data (f_id field) = Some (Arr [])"
  shows "field_step (strip_extra_keys form_fields data) field errors =
           errors @ [f_label field @ '' is required'']
       \<and> POST form_fields data =
           ValidationFailed (fields_loop (strip_extra_keys form_fields data) before []
              @ [f_label field @ '' is required'']
              @ fields_loop (strip_extra_keys form_fields data) after [])"
proof -
  let ?d = "strip_extra_keys form_fields data"
  have "f_id field \<in> set (map f_id form_fields)"
    using assms(1) by simp
  then have "map_of ?d (f_id field) = map_of data (f_id field)"
    by (simp add: map_of_strip)
  with assms(4) have v: "get_prop (Obj ?d) (f_id field) = Undefined \<or> get_prop (Obj ?d) (f_id field) = Arr []"
    by auto
  then have step: "field_step ?d field errs = errs @ [f_label field @ '' is required'']" for errs
    using assms(2,3) by (auto simp add: field_step_def Let_def)
  have "fields_loop ?d form_fields [] =
          fields_loop ?d before [] @ [f_label field @ '' is required''] @ fields_loop ?d after []"
    unfolding assms(1) fields_loop_split step [of "[]", unfolded assms(1)] by simp
  then show ?thesis
    using step by (simp add: POST_def Let_def)
qed

theorem required_group_empty_or_absent_witness:
  "POST [name_field, members_field, terms_field]
        [(''name'', Str ''Ann''), (''agree'', Bool False), (''members'', Arr [])]
   = ValidationFailed [''Members is required'']"
proof -
  let ?data = "[(''name'', Str ''Ann''), (''agree'', Bool False), (''members'', Arr [])]"
  have h1: "[name_field, members_field, terms_field] = [name_field] @ members_field # [terms_field]"
    and h2: "f_type members_field = Dynamic" and h3: "f_required members_field"
    and h4: "map_of ?data (f_id members_field) = None \<or> map_of ?data (f_id members_field) = Some (Arr [])"
    by (simp_all add: members_field_def)
  from required_group_empty_or_absent [OF h1 h2 h3 h4, of "[]"]
  show ?thesis
    by (simp add: strip_extra_keys_def members_field_def name_field_def terms_field_def
        field_step_def is_blank_def type_check_def Let_def)
qed

text \<open>
  C10: a required checkbox field whose submitted value is \<^verbatim>\<open>false\<close> contributes no
  message (the required check refuses only undefined, null and the empty string, and
  \<^verbatim>\<open>false\<close> is a boolean), so a form of that one field accepts the submission.
\<close>

theorem required_checkbox_false_passes:
  assumes "f_type field = Checkbox" and "f_required field"
    and "map_of data (f_id field) = Some (Bool False)"
  shows "field_step data field errors = errors
       \<and> fields_loop data (before @ field # after) [] =
           fields_loop data before [] @ fields_loop data after []
       \<and> POST [field] data = Saved (strip_extra_keys [field] data)"
proof -
  have step: "field_step d field errs = errs" if "map_of d (f_id field) = Some (Bool False)" for d errs
    using assms(1,2) that by (simp add: field_step_def Let_def is_blank_def type_check_def)
  have "map_of (strip_extra_keys [field] data) (f_id field) = Some (Bool False)"
    using assms(3) by (simp add: map_of_strip)
  then have "POST [field] data = Saved (strip_extra_keys [field] data)"
    by (simp add: POST_def Let_def step)
  moreover have "fields_loop data (before @ field # after) [] =
      fields_loop data before [] @ fields_loop data after []"
    by (simp add: fields_loop_split step [OF assms(3)])
  ultimately show ?thesis
    using step [OF assms(3)] by simp
qed

theorem required_checkbox_false_passes_witness:
  "POST [terms_field] [(''agree'', Bool False)] = Saved [(''agree'', Bool False)]"
proof -
  have h1: "f_type terms_field = Checkbox" and h2: "f_required terms_field"
    and h3: "map_of [(''agree'', Bool False)] (f_id terms_field) = Some (Bool False)"
    by (simp_all add: terms_field_def)
  from required_checkbox_false_passes [OF h1 h2 h3, of "[]" "[]" "[]"]
  show ?thesis
    by (simp add: strip_extra_keys_def terms_field_def)
qed

section \<open>The agent builder: the blocks of a run\<close>

text \<open>
  What each block of \<^verbatim>\<open>run\<close> returns and records, given what the collaborators it
  calls answer. The store is written by \<open>enrich_input\<close> only.
\<close>

lemma enrich_input_fresh:
  "enrich_input input sandboxId h =
     (Suc (length h),
      h @ [set_prop (if read_prop (cell h input) ''context'' = Prim Undefined
                        \<or> read_prop (cell h input) ''context'' = Prim Null
                     then [] else own_props h (read_prop (cell h input) ''context''))
             ''sandboxId'' (Prim (Str sandboxId)),
           set_prop (cell h input) ''context'' (Ref (length h))])"
  by (simp add: enrich_input_def alloc_def Let_def)

lemma map_of_set_prop:
  "map_of (set_prop ob key v) k = (if k = key then Some v else map_of ob k)"
  by (simp add: set_prop_def update_conv')

lemma read_prop_set_prop:
  "read_prop (set_prop ob key v) k = (if k = key then v else read_prop ob k)"
  by (simp add: read_prop_def map_of_set_prop)

lemma acquire_sandbox_not_required:
  "\<not> requiresSandbox defn \<Longrightarrow> acquire_sandbox defn deps input s = (Inr (), (input, None), s)"
  by (simp add: acquire_sandbox_def)

lemma acquire_sandbox_no_manager:
  "requiresSandbox defn \<Longrightarrow> daytona deps = None \<Longrightarrow>
   acquire_sandbox defn deps input s =
     (Inl (Error ''Agent requires a sandbox, but no DaytonaSandboxManager was provided.''),
      (input, None), s)"
  by (simp add: acquire_sandbox_def)

lemma acquire_sandbox_throws:
  "requiresSandbox defn \<Longrightarrow> daytona deps = Some d \<Longrightarrow>
   createSandbox d (sandboxConfig defn) (world s) = (Inl error, w) \<Longrightarrow>
   acquire_sandbox defn deps input s =
     (Inl error, (input, None),
      s\<lparr>world := w, calls := calls s @ [CreateSandbox (sandboxConfig defn)]\<rparr>)"
  by (simp add: acquire_sandbox_def call_external_def)

lemma acquire_sandbox_ok:
  "requiresSandbox defn \<Longrightarrow> daytona deps = Some d \<Longrightarrow>
   createSandbox d (sandboxConfig defn) (world s) = (Inr sandbox, w) \<Longrightarrow>
   enrich_input input (handle_id sandbox) (store s) = (input', h) \<Longrightarrow>
   acquire_sandbox defn deps input s =
     (Inr (), (input', Some (handle_id sandbox)),
      s\<lparr>world := w, calls := calls s @ [CreateSandbox (sandboxConfig defn)], store := h\<rparr>)"
  by (simp add: acquire_sandbox_def call_external_def)

lemma call_gemini_throws:
  "gemini deps (systemPrompt defn) input (store s) (world s) = (Inl error, w) \<Longrightarrow>
   call_gemini now defn deps start input sandboxId s =
     (Inl error, s\<lparr>world := w, calls := calls s @ [GeminiRun (systemPrompt defn) input]\<rparr>)"
  by (simp add: call_gemini_def call_external_def)

lemma call_gemini_no_sink:
  "gemini deps (systemPrompt defn) input (store s) (world s) = (Inr output0, w) \<Longrightarrow>
   now w = (t, w') \<Longrightarrow> observability deps = None \<Longrightarrow>
   call_gemini now defn deps start input sandboxId s =
     (Inr (attach_metadata output0 (t - start) sandboxId),
      s\<lparr>world := w', calls := calls s @ [GeminiRun (systemPrompt defn) input]\<rparr>)"
  by (simp add: call_gemini_def call_external_def Date_now_def Let_def)

lemma call_gemini_sink:
  "gemini deps (systemPrompt defn) input (store s) (world s) = (Inr output0, w) \<Longrightarrow>
   now w = (t, w') \<Longrightarrow> observability deps = Some obs \<Longrightarrow>
   params = \<lparr>tp_definition = defn, tp_input = input,
              tp_output = Some (attach_metadata output0 (t - start) sandboxId), tp_error = None,
              tp_durationMs = t - start, tp_sandboxId = sandboxId\<rparr> \<Longrightarrow>
   obs params (store s) w' = (r, w'') \<Longrightarrow>
   call_gemini now defn deps start input sandboxId s =
     ((case r of Inl error \<Rightarrow> Inl error
               | Inr u \<Rightarrow> Inr (attach_metadata output0 (t - start) sandboxId)),
      s\<lparr>world := w'',
        calls := calls s @ [GeminiRun (systemPrompt defn) input, TrackAgentCall params]\<rparr>)"
  by (simp add: call_gemini_def call_external_def Date_now_def Let_def split: sum.splits)

lemma store_call_gemini:
  "store (snd (call_gemini now defn deps start input sandboxId s)) = store s"
  by (simp add: call_gemini_def call_external_def Date_now_def Let_def split_beta
      split: sum.splits option.splits)

lemma calls_call_gemini:
  "\<exists>cs. calls (snd (call_gemini now defn deps start input sandboxId s)) =
          calls s @ GeminiRun (systemPrompt defn) input # cs"
  by (simp add: call_gemini_def call_external_def Date_now_def Let_def split_beta
      split: sum.splits option.splits)

lemma fst_catch_block:
  "fst (catch_block now defn deps start input sandboxId error s) = Inl error"
  by (simp add: catch_block_def Let_def split_beta split: option.splits)

lemma store_catch_block:
  "store (snd (catch_block now defn deps start input sandboxId error s)) = store s"
  by (simp add: catch_block_def call_external_def Date_now_def Let_def split_beta
      split: option.splits)

lemma calls_catch_block:
  "now (world s) = (t, w) \<Longrightarrow>
   calls (snd (catch_block now defn deps start input sandboxId error s)) =
     calls s @ (case observability deps of
                  None \<Rightarrow> []
                | Some obs \<Rightarrow>
                    [TrackAgentCall \<lparr>tp_definition = defn, tp_input = input, tp_output = None,
                       tp_error = Some error, tp_durationMs = t - start,
                       tp_sandboxId = sandboxId\<rparr>])"
  by (simp add: catch_block_def call_external_def Date_now_def Let_def split_beta
      split: option.splits)

lemma calls_catch_block_ex:
  "\<exists>cs. calls (snd (catch_block now defn deps start input sandboxId error s)) = calls s @ cs"
  by (simp add: catch_block_def call_external_def Date_now_def Let_def split_beta
      split: option.splits)

lemma store_finally_block:
  "store (finally_block deps sandboxId s) = store s"
  by (simp add: finally_block_def call_external_def split_beta split: option.splits)

lemma calls_finally_block:
  "calls (finally_block deps sandboxId s) =
     calls s @ (case (sandboxId, daytona deps) of
                  (Some sid, Some d) \<Rightarrow> if sid \<noteq> '''' then [StopSandbox sid] else []
                | _ \<Rightarrow> [])"
  by (simp add: finally_block_def call_external_def split_beta split: option.splits)

lemma run_steps:
  "now (world s0) = (start, w1) \<Longrightarrow>
   try_block now defn deps start input (s0\<lparr>world := w1\<rparr>) = (r, (input', sandboxId), s2) \<Longrightarrow>
   run now defn deps input s0 =
     (case r of
        Inr output \<Rightarrow> (Inr output, finally_block deps sandboxId s2)
      | Inl error \<Rightarrow>
          (Inl error,
           finally_block deps sandboxId
             (snd (catch_block now defn deps start input' sandboxId error s2))))"
  using fst_catch_block [of now defn deps start input' sandboxId _ s2]
  by (simp add: run_def Date_now_def split_beta split: sum.splits)

lemma try_block_steps:
  "acquire_sandbox defn deps input s = (Inr (), (input', sandboxId), s1) \<Longrightarrow>
   try_block now defn deps start input s =
     (fst (call_gemini now defn deps start input' sandboxId s1), (input', sandboxId),
      snd (call_gemini now defn deps start input' sandboxId s1))"
  "acquire_sandbox defn deps input s = (Inl error, vars, s1) \<Longrightarrow>
   try_block now defn deps start input s = (Inl error, vars, s1)"
  by (simp_all add: try_block_def split_beta)

lemma try_block_acquired:
  "requiresSandbox defn \<Longrightarrow> daytona deps = Some d \<Longrightarrow>
   createSandbox d (sandboxConfig defn) (world s) = (Inr sandbox, w) \<Longrightarrow>
   enrich_input input (handle_id sandbox) (store s) = (input', h) \<Longrightarrow>
   sA = s\<lparr>world := w, calls := calls s @ [CreateSandbox (sandboxConfig defn)], store := h\<rparr> \<Longrightarrow>
   try_block now defn deps start input s =
     (fst (call_gemini now defn deps start input' (Some (handle_id sandbox)) sA),
      (input', Some (handle_id sandbox)),
      snd (call_gemini now defn deps start input' (Some (handle_id sandbox)) sA))"
  using try_block_steps(1) [OF acquire_sandbox_ok] by simp

lemma start_facts:
  "world start_state = 0" "calls start_state = []"
  "store start_state = [[(''hello'', Prim (Num 1))],
      [(''text'', Prim (Str ''A contact form'')), (''context'', Ref 0)]]"
  by (simp_all add: start_state_def)

lemma enrich_start:
  "enrich_input 1 ''sandbox-1'' (store start_state) =
     (3, [[(''hello'', Prim (Num 1))],
          [(''text'', Prim (Str ''A contact form'')), (''context'', Ref 0)],
          [(''hello'', Prim (Num 1)), (''sandboxId'', Prim (Str ''sandbox-1''))],
          [(''text'', Prim (Str ''A contact form'')), (''context'', Ref 2)]])"
  by (simp add: enrich_input_fresh start_state_def cell_def read_prop_def set_prop_def)

lemma run_rejects_with_error_of_try_block:
  assumes "now (world s0) = (start, w1)"
    and "fst (try_block now defn deps start input (s0\<lparr>world := w1\<rparr>)) = Inl error"
  shows "fst (run now defn deps input s0) = Inl error"
proof -
  obtain input' sandboxId s2
    where "try_block now defn deps start input (s0\<lparr>world := w1\<rparr>) = (Inl error, (input', sandboxId), s2)"
    using assms(2) by (cases "try_block now defn deps start input (s0\<lparr>world := w1\<rparr>)") auto
  from run_steps [OF assms(1) this] show ?thesis
    by simp
qed

section \<open>The agent builder: the claims\<close>

text \<open>
  C1: when the observability sink throws, the outcome of the run is unchanged. On the
  failure path this holds (\<open>run_rejects_with_error_of_try_block\<close>: the \<^verbatim>\<open>catch\<close>
  block rethrows the error it caught, whatever the sink does). On the success path it
  does not: the success notification has no handler of its own, so the run rejects with
  the sink's error. Here the executor succeeds and the sink throws; the run calls the
  executor, then the sink twice (success, then failure with the sink's own error), and
  rejects.
\<close>

theorem sink_error_on_success_replaces_output:
  "run ticking_clock plain_agent
       \<lparr>gemini = ok_gemini, daytona = None, observability = Some throwing_sink\<rparr> 1 start_state
   = (Inl (Error ''Galileo unavailable''),
      start_state\<lparr>world := 6,
        calls :=
          [GeminiRun (systemPrompt plain_agent) 1,
           TrackAgentCall
             \<lparr>tp_definition = plain_agent, tp_input = 1,
              tp_output = Some \<lparr>o_text = ''done'', rawModelResponse = Undefined,
                 metadata = Some [(''tokens'', Obj [(''input'', Num 12), (''output'', Num 34)]),
                                  (''durationMs'', Num 10), (''sandboxId'', Undefined)]\<rparr>,
              tp_error = None, tp_durationMs = 10, tp_sandboxId = None\<rparr>,
           TrackAgentCall
             \<lparr>tp_definition = plain_agent, tp_input = 1, tp_output = None,
              tp_error = Some (Error ''Galileo unavailable''), tp_durationMs = 20,
              tp_sandboxId = None\<rparr>]\<rparr>)"
  by (simp add: run_def try_block_def acquire_sandbox_def call_gemini_def catch_block_def
      finally_block_def call_external_def Date_now_def Let_def plain_agent_def ticking_clock_def
      ok_gemini_def throwing_sink_def start_state_def attach_metadata_def)

text \<open>
  C2, as stated: when the acquisition of the sandbox fails, the run makes no observability
  call. It does: the acquisition stands inside the \<^verbatim>\<open>try\<close> block, so the \<^verbatim>\<open>catch\<close>
  block reports the failure to the sink. Here the agent requires a sandbox and no manager
  was supplied.
\<close>

theorem acquisition_failure_is_reported_counterexample:
  "calls (snd (run ticking_clock form_agent
          \<lparr>gemini = ok_gemini, daytona = None, observability = Some ok_sink\<rparr> 1 start_state))
     = [TrackAgentCall \<lparr>tp_definition = form_agent, tp_input = 1, tp_output = None,
          tp_error = Some (Error ''Agent requires a sandbox, but no DaytonaSandboxManager was provided.''),
          tp_durationMs = 5, tp_sandboxId = None\<rparr>]"
  by (simp add: run_def try_block_def acquire_sandbox_def call_gemini_def catch_block_def
      finally_block_def call_external_def Date_now_def Let_def form_agent_def ticking_clock_def
      ok_sink_def start_state_def)

text \<open>
  C2, amended: when the acquisition fails (no manager was supplied, or
  \<^verbatim>\<open>createSandbox\<close> throws), the run rejects with the acquisition error, the store is
  untouched, and the calls of the run are: \<^verbatim>\<open>createSandbox\<close> when there is a manager,
  then one failure notification when there is a sink, carrying the acquisition error, the
  caller's input and no sandbox id. There is no call of the executor and none of
  \<^verbatim>\<open>stopSandbox\<close>.
\<close>

theorem acquisition_failure_outcome:
  assumes "requiresSandbox defn"
    and "now (world s0) = (start, w1)"
    and "case daytona deps of
           None \<Rightarrow> error = Error ''Agent requires a sandbox, but no DaytonaSandboxManager was provided.''
                    \<and> w2 = w1
         | Some d \<Rightarrow> createSandbox d (sandboxConfig defn) w1 = (Inl error, w2)"
    and "now w2 = (t, w3)"
  shows "fst (run now defn deps input s0) = Inl error
       \<and> store (snd (run now defn deps input s0)) = store s0
       \<and> calls (snd (run now defn deps input s0)) =
           calls s0
             @ (case daytona deps of None \<Rightarrow> [] | Some d \<Rightarrow> [CreateSandbox (sandboxConfig defn)])
             @ (case observability deps of
                  None \<Rightarrow> []
                | Some obs \<Rightarrow>
                    [TrackAgentCall \<lparr>tp_definition = defn, tp_input = input, tp_output = None,
                       tp_error = Some error, tp_durationMs = t - start, tp_sandboxId = None\<rparr>])"
proof -
  let ?s1 = "s0\<lparr>world := w1\<rparr>"
  let ?s2 = "?s1\<lparr>world := w2,
                 calls := calls s0 @ (case daytona deps of None \<Rightarrow> []
                                      | Some d \<Rightarrow> [CreateSandbox (sandboxConfig defn)])\<rparr>"
  have "acquire_sandbox defn deps input ?s1 = (Inl error, (input, None), ?s2)"
  proof (cases "daytona deps")
    case None
    with assms(1,3) show ?thesis by (simp add: acquire_sandbox_no_manager)
  next
    case (Some d)
    with assms(1,3) show ?thesis by (simp add: acquire_sandbox_throws [where d = d and w = w2])
  qed
  then have "try_block now defn deps start input ?s1 = (Inl error, (input, None), ?s2)"
    by (rule try_block_steps(2))
  from run_steps [OF assms(2) this]
  have "run now defn deps input s0 =
          (Inl error, finally_block deps None (snd (catch_block now defn deps start input None error ?s2)))"
    by simp
  then show ?thesis
    using assms(4)
    by (simp add: store_finally_block store_catch_block calls_finally_block
        calls_catch_block [where t = t and w = w3])
qed

theorem acquisition_failure_outcome_witness:
  "fst (run ticking_clock form_agent
          \<lparr>gemini = ok_gemini, daytona = Some failing_daytona, observability = Some ok_sink\<rparr>
          1 start_state) = Inl (Error ''no capacity'')
   \<and> calls (snd (run ticking_clock form_agent
          \<lparr>gemini = ok_gemini, daytona = Some failing_daytona, observability = Some ok_sink\<rparr>
          1 start_state)) =
       [CreateSandbox (sandboxConfig form_agent),
        TrackAgentCall \<lparr>tp_definition = form_agent, tp_input = 1, tp_output = None,
          tp_error = Some (Error ''no capacity''), tp_durationMs = 10, tp_sandboxId = None\<rparr>]"
proof -
  let ?deps = "\<lparr>gemini = ok_gemini, daytona = Some failing_daytona, observability = Some ok_sink\<rparr>"
  have h1: "requiresSandbox form_agent"
    by (simp add: form_agent_def)
  have h2: "ticking_clock (world start_state) = (1000, 1)"
    by (simp add: ticking_clock_def start_facts)
  have h3: "case daytona ?deps of
           None \<Rightarrow> Error ''no capacity'' = Error ''Agent requires a sandbox, but no DaytonaSandboxManager was provided.''
                    \<and> 2 = (1::nat)
         | Some d \<Rightarrow> createSandbox d (sandboxConfig form_agent) 1 = (Inl (Error ''no capacity''), 2)"
    by (simp add: failing_daytona_def)
  have h4: "ticking_clock 2 = (1010, 3)"
    by (simp add: ticking_clock_def)
  from acquisition_failure_outcome [OF h1 h2 h3 h4, of 1]
  show ?thesis
    by (simp add: start_facts)
qed

text \<open>
  C4, as stated: when the acquisition succeeds and the executor throws,
  \<^verbatim>\<open>stopSandbox\<close> is called exactly once with the id of the handle. The \<^verbatim>\<open>finally\<close>
  block tests \<^verbatim>\<open>sandboxId && daytona\<close>, so a handle whose id is the empty string is
  never released.
\<close>

theorem empty_sandbox_id_not_released_counterexample:
  "calls (snd (run ticking_clock form_agent
          \<lparr>gemini = failing_gemini, daytona = Some empty_id_daytona, observability = None\<rparr> 1 start_state))
     = [CreateSandbox (sandboxConfig form_agent), GeminiRun (systemPrompt form_agent) 3]"
  by (simp add: run_def try_block_def acquire_sandbox_def call_gemini_def catch_block_def
      finally_block_def call_external_def Date_now_def Let_def form_agent_def ticking_clock_def
      failing_gemini_def empty_id_daytona_def start_state_def enrich_input_fresh)

text \<open>
  C4, amended: when the acquisition succeeds with a handle whose id is not empty and the
  executor then throws, the run rejects with the executor's error, whatever the sink and
  \<^verbatim>\<open>stopSandbox\<close> do, and \<^verbatim>\<open>stopSandbox\<close> is called exactly once, last, with the id
  of the handle.
\<close>

theorem backend_failure_releases_once:
  assumes "requiresSandbox defn" and "daytona deps = Some d"
    and "now (world s0) = (start, w1)"
    and "createSandbox d (sandboxConfig defn) w1 = (Inr sandbox, w2)"
    and "handle_id sandbox \<noteq> ''''"
    and "enrich_input input (handle_id sandbox) (store s0) = (input', h)"
    and "gemini deps (systemPrompt defn) input' h w2 = (Inl error, w3)"
    and "now w3 = (t, w4)"
  shows "fst (run now defn deps input s0) = Inl error
       \<and> stop_calls (calls (snd (run now defn deps input s0))) =
           stop_calls (calls s0) @ [handle_id sandbox]
       \<and> calls (snd (run now defn deps input s0)) =
           calls s0 @ [CreateSandbox (sandboxConfig defn), GeminiRun (systemPrompt defn) input']
             @ (case observability deps of
                  None \<Rightarrow> []
                | Some obs \<Rightarrow>
                    [TrackAgentCall \<lparr>tp_definition = defn, tp_input = input', tp_output = None,
                       tp_error = Some error, tp_durationMs = t - start,
                       tp_sandboxId = Some (handle_id sandbox)\<rparr>])
             @ [StopSandbox (handle_id sandbox)]"
proof -
  let ?sid = "Some (handle_id sandbox)"
  let ?sA = "s0\<lparr>world := w2, calls := calls s0 @ [CreateSandbox (sandboxConfig defn)], store := h\<rparr>"
  let ?sG = "?sA\<lparr>world := w3,
                 calls := calls s0 @ [CreateSandbox (sandboxConfig defn),
                                      GeminiRun (systemPrompt defn) input']\<rparr>"
  have gem: "call_gemini now defn deps start input' ?sid ?sA = (Inl error, ?sG)"
    using assms(7) by (simp add: call_gemini_throws [where w = w3])
  have "try_block now defn deps start input (s0\<lparr>world := w1\<rparr>) = (Inl error, (input', ?sid), ?sG)"
    using try_block_acquired [of defn deps d "s0\<lparr>world := w1\<rparr>" sandbox w2 input input' h ?sA now start]
      assms(1,2,4,6) gem by simp
  from run_steps [OF assms(3) this]
  have run: "run now defn deps input s0 =
          (Inl error, finally_block deps ?sid (snd (catch_block now defn deps start input' ?sid error ?sG)))"
    by simp
  have cs: "calls (snd (run now defn deps input s0)) =
           calls s0 @ [CreateSandbox (sandboxConfig defn), GeminiRun (systemPrompt defn) input']
             @ (case observability deps of
                  None \<Rightarrow> []
                | Some obs \<Rightarrow>
                    [TrackAgentCall \<lparr>tp_definition = defn, tp_input = input', tp_output = None,
                       tp_error = Some error, tp_durationMs = t - start,
                       tp_sandboxId = Some (handle_id sandbox)\<rparr>])
             @ [StopSandbox (handle_id sandbox)]"
    using assms(2,5,8)
    by (simp add: run calls_finally_block calls_catch_block [where t = t and w = w4])
  have "stop_calls (calls (snd (run now defn deps input s0))) =
           stop_calls (calls s0) @ [handle_id sandbox]"
    unfolding cs by (simp add: stop_calls_def split: option.splits)
  with cs run show ?thesis by simp
qed

theorem backend_failure_releases_once_witness:
  "fst (run ticking_clock form_agent
          \<lparr>gemini = failing_gemini, daytona = Some ok_daytona, observability = Some throwing_sink\<rparr>
          1 start_state) = Inl (Error ''Gemini API error: quota exceeded'')
   \<and> stop_calls (calls (snd (run ticking_clock form_agent
          \<lparr>gemini = failing_gemini, daytona = Some ok_daytona, observability = Some throwing_sink\<rparr>
          1 start_state))) = [''sandbox-1'']"
proof -
  let ?deps = "\<lparr>gemini = failing_gemini, daytona = Some ok_daytona, observability = Some throwing_sink\<rparr>"
  let ?h = "[[(''hello'', Prim (Num 1))],
          [(''text'', Prim (Str ''A contact form'')), (''context'', Ref 0)],
          [(''hello'', Prim (Num 1)), (''sandboxId'', Prim (Str ''sandbox-1''))],
          [(''text'', Prim (Str ''A contact form'')), (''context'', Ref 2)]]"
  have h1: "requiresSandbox form_agent"
    by (simp add: form_agent_def)
  have h2: "daytona ?deps = Some ok_daytona"
    by simp
  have h3: "ticking_clock (world start_state) = (1000, 1)"
    by (simp add: ticking_clock_def start_facts)
  have h4: "createSandbox ok_daytona (sandboxConfig form_agent) 1 = (Inr \<lparr>handle_id = ''sandbox-1''\<rparr>, 2)"
    by (simp add: ok_daytona_def)
  have h5: "handle_id \<lparr>handle_id = ''sandbox-1''\<rparr> \<noteq> ''''"
    by simp
  have h6: "enrich_input 1 (handle_id \<lparr>handle_id = ''sandbox-1''\<rparr>) (store start_state) = (3, ?h)"
    using enrich_start by simp
  have h7: "gemini ?deps (systemPrompt form_agent) 3 ?h 2 = (Inl (Error ''Gemini API error: quota exceeded''), 3)"
    by (simp add: failing_gemini_def)
  have h8: "ticking_clock 3 = (1015, 4)"
    by (simp add: ticking_clock_def)
  from backend_failure_releases_once [OF h1 h2 h3 h4 h5 h6 h7 h8]
  show ?thesis
    by (simp add: start_facts stop_calls_def)
qed

text \<open>
  C5, as stated: when the acquisition and the executor succeed, the metadata of the
  output keeps every entry the executor set, \<^verbatim>\<open>durationMs\<close> is not negative, and
  \<^verbatim>\<open>stopSandbox\<close> is called once with the id of the handle. Three runs show
  otherwise: an entry \<^verbatim>\<open>durationMs\<close> set by the executor (999) is overwritten; a clock
  set back during the run gives a negative duration; a handle with the empty id is not
  released.
\<close>

theorem success_metadata_counterexample:
  "fst (run ticking_clock form_agent
          \<lparr>gemini = timed_gemini, daytona = Some ok_daytona, observability = None\<rparr> 1 start_state)
     = Inr \<lparr>o_text = ''done'', rawModelResponse = Undefined,
            metadata = Some [(''durationMs'', Num 15), (''sandboxId'', Str ''sandbox-1'')]\<rparr>
   \<and> fst (run adjusted_clock form_agent
          \<lparr>gemini = timed_gemini, daytona = Some ok_daytona, observability = None\<rparr> 1 start_state)
     = Inr \<lparr>o_text = ''done'', rawModelResponse = Undefined,
            metadata = Some [(''durationMs'', Num (- 15)), (''sandboxId'', Str ''sandbox-1'')]\<rparr>
   \<and> calls (snd (run ticking_clock form_agent
          \<lparr>gemini = timed_gemini, daytona = Some empty_id_daytona, observability = None\<rparr> 1 start_state))
     = [CreateSandbox (sandboxConfig form_agent), GeminiRun (systemPrompt form_agent) 3]"
  by (simp add: run_def try_block_def acquire_sandbox_def call_gemini_def catch_block_def
      finally_block_def call_external_def Date_now_def Let_def form_agent_def ticking_clock_def
      adjusted_clock_def timed_gemini_def ok_daytona_def empty_id_daytona_def start_state_def
      enrich_input_fresh attach_metadata_def)

text \<open>
  C5, amended: when the acquisition and the executor succeed and the success
  notification does not throw, the run resolves to the executor's output with
  \<^verbatim>\<open>durationMs\<close>, the difference of the two clock readings (not negative when the
  clock did not go back), and \<^verbatim>\<open>sandboxId\<close>, the id of the handle, merged into its
  metadata; every entry the executor set under another key is kept; and
  \<^verbatim>\<open>stopSandbox\<close> is called exactly once, last, with the id of the handle when that id
  is not empty.
\<close>

theorem success_metadata_and_release:
  assumes "requiresSandbox defn" and "daytona deps = Some d"
    and "now (world s0) = (start, w1)"
    and "createSandbox d (sandboxConfig defn) w1 = (Inr sandbox, w2)"
    and "enrich_input input (handle_id sandbox) (store s0) = (input', h)"
    and "gemini deps (systemPrompt defn) input' h w2 = (Inr output0, w3)"
    and "now w3 = (t, w4)"
    and "output = attach_metadata output0 (t - start) (Some (handle_id sandbox))"
    and "params = \<lparr>tp_definition = defn, tp_input = input', tp_output = Some output,
                    tp_error = None, tp_durationMs = t - start,
                    tp_sandboxId = Some (handle_id sandbox)\<rparr>"
    and "case observability deps of None \<Rightarrow> True | Some obs \<Rightarrow> fst (obs params h w4) = Inr ()"
  shows "fst (run now defn deps input s0) = Inr output
       \<and> o_text output = o_text output0 \<and> rawModelResponse output = rawModelResponse output0
       \<and> (\<exists>m. metadata output = Some m
              \<and> map_of m ''durationMs'' = Some (Num (t - start))
              \<and> map_of m ''sandboxId'' = Some (Str (handle_id sandbox))
              \<and> (\<forall>key. key \<noteq> ''durationMs'' \<and> key \<noteq> ''sandboxId'' \<longrightarrow>
                    map_of m key = map_of (case metadata output0 of None \<Rightarrow> [] | Some m0 \<Rightarrow> m0) key))
       \<and> (start \<le> t \<longrightarrow> 0 \<le> t - start)
       \<and> calls (snd (run now defn deps input s0)) =
           calls s0 @ [CreateSandbox (sandboxConfig defn), GeminiRun (systemPrompt defn) input']
             @ (case observability deps of None \<Rightarrow> [] | Some obs \<Rightarrow> [TrackAgentCall params])
             @ (if handle_id sandbox \<noteq> '''' then [StopSandbox (handle_id sandbox)] else [])"
proof -
  let ?sid = "Some (handle_id sandbox)"
  let ?sA = "s0\<lparr>world := w2, calls := calls s0 @ [CreateSandbox (sandboxConfig defn)], store := h\<rparr>"
  have "\<exists>sG. call_gemini now defn deps start input' ?sid ?sA = (Inr output, sG)
            \<and> calls sG = calls s0 @ [CreateSandbox (sandboxConfig defn), GeminiRun (systemPrompt defn) input']
                 @ (case observability deps of None \<Rightarrow> [] | Some obs \<Rightarrow> [TrackAgentCall params])"
  proof (cases "observability deps")
    case None
    then show ?thesis
      using assms(6,7,8) by (simp add: call_gemini_no_sink [where w = w3 and w' = w4 and t = t])
  next
    case (Some obs)
    obtain w5 where "obs params h w4 = (Inr (), w5)"
      using assms(10) Some by (cases "obs params h w4") simp
    then show ?thesis
      using assms(6,7,8,9) Some
      by (simp add: call_gemini_sink [where w = w3 and w' = w4 and t = t and obs = obs
            and params = params and r = "Inr ()" and w'' = w5])
  qed
  then obtain sG where gem: "call_gemini now defn deps start input' ?sid ?sA = (Inr output, sG)"
    and csG: "calls sG = calls s0 @ [CreateSandbox (sandboxConfig defn), GeminiRun (systemPrompt defn) input']
                 @ (case observability deps of None \<Rightarrow> [] | Some obs \<Rightarrow> [TrackAgentCall params])"
    by blast
  have "try_block now defn deps start input (s0\<lparr>world := w1\<rparr>) = (Inr output, (input', ?sid), sG)"
    using try_block_acquired [of defn deps d "s0\<lparr>world := w1\<rparr>" sandbox w2 input input' h ?sA now start]
      assms(1,2,4,5) gem by simp
  from run_steps [OF assms(3) this]
  have run: "run now defn deps input s0 = (Inr output, finally_block deps ?sid sG)"
    by simp
  have cs: "calls (snd (run now defn deps input s0)) =
           calls s0 @ [CreateSandbox (sandboxConfig defn), GeminiRun (systemPrompt defn) input']
             @ (case observability deps of None \<Rightarrow> [] | Some obs \<Rightarrow> [TrackAgentCall params])
             @ (if handle_id sandbox \<noteq> '''' then [StopSandbox (handle_id sandbox)] else [])"
    using assms(2) by (simp add: run calls_finally_block csG)
  have md: "\<exists>m. metadata output = Some m
              \<and> map_of m ''durationMs'' = Some (Num (t - start))
              \<and> map_of m ''sandboxId'' = Some (Str (handle_id sandbox))
              \<and> (\<forall>key. key \<noteq> ''durationMs'' \<and> key \<noteq> ''sandboxId'' \<longrightarrow>
                    map_of m key = map_of (case metadata output0 of None \<Rightarrow> [] | Some m0 \<Rightarrow> m0) key)"
    by (simp add: assms(8) attach_metadata_def update_conv')
  have "o_text output = o_text output0 \<and> rawModelResponse output = rawModelResponse output0"
    by (simp add: assms(8) attach_metadata_def)
  with run cs md show ?thesis by simp
qed

theorem success_metadata_and_release_witness:
  "fst (run ticking_clock form_agent
          \<lparr>gemini = ok_gemini, daytona = Some ok_daytona, observability = Some ok_sink\<rparr>
          1 start_state) =
     Inr \<lparr>o_text = ''done'', rawModelResponse = Undefined,
          metadata = Some [(''tokens'', Obj [(''input'', Num 12), (''output'', Num 34)]),
                           (''durationMs'', Num 15), (''sandboxId'', Str ''sandbox-1'')]\<rparr>
   \<and> stop_calls (calls (snd (run ticking_clock form_agent
          \<lparr>gemini = ok_gemini, daytona = Some ok_daytona, observability = Some ok_sink\<rparr>
          1 start_state))) = [''sandbox-1'']"
proof -
  let ?deps = "\<lparr>gemini = ok_gemini, daytona = Some ok_daytona, observability = Some ok_sink\<rparr>"
  let ?h = "[[(''hello'', Prim (Num 1))],
          [(''text'', Prim (Str ''A contact form'')), (''context'', Ref 0)],
          [(''hello'', Prim (Num 1)), (''sandboxId'', Prim (Str ''sandbox-1''))],
          [(''text'', Prim (Str ''A contact form'')), (''context'', Ref 2)]]"
  let ?backend = "\<lparr>o_text = ''done'', rawModelResponse = Undefined,
           metadata = Some [(''tokens'', Obj [(''input'', Num 12), (''output'', Num 34)])]\<rparr>"
  let ?merged = "attach_metadata ?backend (1015 - 1000) (Some (handle_id \<lparr>handle_id = ''sandbox-1''\<rparr>))"
  let ?params = "\<lparr>tp_definition = form_agent, tp_input = 3, tp_output = Some ?merged,
                    tp_error = None, tp_durationMs = 1015 - 1000,
                    tp_sandboxId = Some (handle_id \<lparr>handle_id = ''sandbox-1''\<rparr>)\<rparr>"
  have h1: "requiresSandbox form_agent"
    by (simp add: form_agent_def)
  have h2: "daytona ?deps = Some ok_daytona"
    by simp
  have h3: "ticking_clock (world start_state) = (1000, 1)"
    by (simp add: ticking_clock_def start_facts)
  have h4: "createSandbox ok_daytona (sandboxConfig form_agent) 1 = (Inr \<lparr>handle_id = ''sandbox-1''\<rparr>, 2)"
    by (simp add: ok_daytona_def)
  have h5: "enrich_input 1 (handle_id \<lparr>handle_id = ''sandbox-1''\<rparr>) (store start_state) = (3, ?h)"
    using enrich_start by simp
  have h6: "gemini ?deps (systemPrompt form_agent) 3 ?h 2 = (Inr ?backend, 3)"
    by (simp add: ok_gemini_def)
  have h7: "ticking_clock 3 = (1015, 4)"
    by (simp add: ticking_clock_def)
  have h10: "case observability ?deps of None \<Rightarrow> True | Some obs \<Rightarrow> fst (obs ?params ?h 4) = Inr ()"
    by (simp add: ok_sink_def)
  note inst = success_metadata_and_release [OF h1 h2 h3 h4 h5 h6 h7 refl refl h10]
  have out: "?merged = \<lparr>o_text = ''done'', rawModelResponse = Undefined,
          metadata = Some [(''tokens'', Obj [(''input'', Num 12), (''output'', Num 34)]),
                           (''durationMs'', Num 15), (''sandboxId'', Str ''sandbox-1'')]\<rparr>"
    by (simp add: attach_metadata_def)
  have "fst (run ticking_clock form_agent ?deps 1 start_state) = Inr ?merged"
    using inst by blast
  moreover have "calls (snd (run ticking_clock form_agent ?deps 1 start_state)) =
      [CreateSandbox (sandboxConfig form_agent), GeminiRun (systemPrompt form_agent) 3,
       TrackAgentCall ?params, StopSandbox ''sandbox-1'']"
    using inst by (simp add: start_facts)
  ultimately show ?thesis
    unfolding out by (simp add: stop_calls_def)
qed

text \<open>
  C9: a run that acquires a sandbox does not write the caller's input. Whatever the
  executor, the sink and \<^verbatim>\<open>stopSandbox\<close> answer, every object that was in the store
  before the run is the same after it; the run adds two objects, the derived context,
  which holds the id of the handle under \<^verbatim>\<open>sandboxId\<close> and otherwise the properties of
  the caller's context, and the derived input, which has the properties of the caller's
  input except \<^verbatim>\<open>context\<close>, a reference to the derived context; and the executor is
  called with the derived input.
\<close>

theorem input_not_mutated:
  assumes "requiresSandbox defn" and "daytona deps = Some d"
    and "now (world s0) = (start, w1)"
    and "createSandbox d (sandboxConfig defn) w1 = (Inr sandbox, w2)"
    and "s = snd (run now defn deps input s0)"
    and "input' = Suc (length (store s0))"
  shows "take (length (store s0)) (store s) = store s0
       \<and> length (store s) = length (store s0) + 2
       \<and> (\<forall>a. a < length (store s0) \<longrightarrow> cell (store s) a = cell (store s0) a)
       \<and> (\<exists>cs cs'. calls s = calls s0 @ cs @ GeminiRun (systemPrompt defn) input' # cs')
       \<and> (\<forall>key. read_prop (cell (store s) input') key =
              (if key = ''context'' then Ref (length (store s0))
               else read_prop (cell (store s0) input) key))
       \<and> (\<forall>key. read_prop (cell (store s) (length (store s0))) key =
              (if key = ''sandboxId'' then Prim (Str (handle_id sandbox))
               else read_prop
                      (if read_prop (cell (store s0) input) ''context'' = Prim Undefined
                          \<or> read_prop (cell (store s0) input) ''context'' = Prim Null
                       then []
                       else own_props (store s0) (read_prop (cell (store s0) input) ''context''))
                      key))"
proof -
  let ?sid = "Some (handle_id sandbox)"
  obtain ctx inp where e: "enrich_input input (handle_id sandbox) (store s0) = (input', store s0 @ [ctx, inp])"
    and ctx: "\<forall>key. read_prop ctx key =
              (if key = ''sandboxId'' then Prim (Str (handle_id sandbox))
               else read_prop
                      (if read_prop (cell (store s0) input) ''context'' = Prim Undefined
                          \<or> read_prop (cell (store s0) input) ''context'' = Prim Null
                       then []
                       else own_props (store s0) (read_prop (cell (store s0) input) ''context''))
                      key)"
    and inp: "inp = set_prop (cell (store s0) input) ''context'' (Ref (length (store s0)))"
    by (simp add: enrich_input_fresh assms(6) read_prop_set_prop)
  let ?sA = "s0\<lparr>world := w2, calls := calls s0 @ [CreateSandbox (sandboxConfig defn)],
                store := store s0 @ [ctx, inp]\<rparr>"
  let ?g = "call_gemini now defn deps start input' ?sid ?sA"
  have "try_block now defn deps start input (s0\<lparr>world := w1\<rparr>) = (fst ?g, (input', ?sid), snd ?g)"
    using try_block_acquired [of defn deps d "s0\<lparr>world := w1\<rparr>" sandbox w2 input input'
        "store s0 @ [ctx, inp]" ?sA now start]
      assms(1,2,4) e by simp
  from run_steps [OF assms(3) this]
  have run: "s = (case fst ?g of
        Inr output \<Rightarrow> finally_block deps ?sid (snd ?g)
      | Inl error \<Rightarrow>
           finally_block deps ?sid (snd (catch_block now defn deps start input' ?sid error (snd ?g))))"
    by (simp add: assms(5) split: sum.splits)
  have st: "store s = store s0 @ [ctx, inp]"
    by (simp add: run store_finally_block store_catch_block store_call_gemini split: sum.splits)
  obtain cs1 where c1: "calls (snd ?g) = calls ?sA @ GeminiRun (systemPrompt defn) input' # cs1"
    using calls_call_gemini [of now defn deps start input' ?sid ?sA] by blast
  have "\<exists>cs2. calls s = calls (snd ?g) @ cs2"
  proof (cases "fst ?g")
    case (Inl error)
    obtain cs where "calls (snd (catch_block now defn deps start input' ?sid error (snd ?g))) =
        calls (snd ?g) @ cs"
      using calls_catch_block_ex [of now defn deps start input' ?sid error "snd ?g"] by blast
    then show ?thesis
      by (simp add: run Inl calls_finally_block)
  next
    case (Inr out)
    then show ?thesis
      by (simp add: run calls_finally_block)
  qed
  then obtain cs2 where "calls s = calls (snd ?g) @ cs2" by blast
  with c1 have cl: "\<exists>cs cs'. calls s = calls s0 @ cs @ GeminiRun (systemPrompt defn) input' # cs'"
    by (intro exI [of _ "[CreateSandbox (sandboxConfig defn)]"] exI [of _ "cs1 @ cs2"]) simp
  have "cell (store s) input' = inp" "cell (store s) (length (store s0)) = ctx"
    by (simp_all add: st cell_def assms(6) nth_append)
  moreover have "\<forall>a. a < length (store s0) \<longrightarrow> cell (store s) a = cell (store s0) a"
    by (simp add: st cell_def nth_append)
  ultimately show ?thesis
    using st cl ctx inp by (simp add: read_prop_set_prop)
qed

theorem input_not_mutated_witness:
  "take (length (store start_state)) (store (snd (run ticking_clock form_agent
          \<lparr>gemini = failing_gemini, daytona = Some ok_daytona, observability = Some throwing_sink\<rparr>
          1 start_state))) = store start_state
   \<and> read_prop (cell (store (snd (run ticking_clock form_agent
          \<lparr>gemini = failing_gemini, daytona = Some ok_daytona, observability = Some throwing_sink\<rparr>
          1 start_state))) 3) ''context'' = Ref 2
   \<and> read_prop (cell (store (snd (run ticking_clock form_agent
          \<lparr>gemini = failing_gemini, daytona = Some ok_daytona, observability = Some throwing_sink\<rparr>
          1 start_state))) 3) ''text'' = Prim (Str ''A contact form'')
   \<and> read_prop (cell (store (snd (run ticking_clock form_agent
          \<lparr>gemini = failing_gemini, daytona = Some ok_daytona, observability = Some throwing_sink\<rparr>
          1 start_state))) 2) ''sandboxId'' = Prim (Str ''sandbox-1'')"
proof -
  let ?deps = "\<lparr>gemini = failing_gemini, daytona = Some ok_daytona, observability = Some throwing_sink\<rparr>"
  have h1: "requiresSandbox form_agent"
    by (simp add: form_agent_def)
  have h2: "daytona ?deps = Some ok_daytona"
    by simp
  have h3: "ticking_clock (world start_state) = (1000, 1)"
    by (simp add: ticking_clock_def start_facts)
  have h4: "createSandbox ok_daytona (sandboxConfig form_agent) 1 = (Inr \<lparr>handle_id = ''sandbox-1''\<rparr>, 2)"
    by (simp add: ok_daytona_def)
  have h6: "3 = Suc (length (store start_state))"
    by (simp add: start_facts)
  note inst = input_not_mutated [where s = "snd (run ticking_clock form_agent ?deps 1 start_state)" and input' = 3,
      OF h1 h2 h3 h4 refl h6]
  from inst [THEN conjunct1] have a: "take (length (store start_state)) (store (snd (run ticking_clock form_agent ?deps 1 start_state))) =
      store start_state" .
  from inst [THEN conjunct2, THEN conjunct2, THEN conjunct2, THEN conjunct2, THEN conjunct1]
  have b: "read_prop (cell (store (snd (run ticking_clock form_agent ?deps 1 start_state))) 3) key =
      (if key = ''context'' then Ref 2 else read_prop (cell (store start_state) 1) key)" for key
    by (simp add: start_facts)
  from inst [THEN conjunct2, THEN conjunct2, THEN conjunct2, THEN conjunct2, THEN conjunct2,
      THEN spec, of "''sandboxId''"]
  have c: "read_prop (cell (store (snd (run ticking_clock form_agent ?deps 1 start_state))) 2)
      ''sandboxId'' = Prim (Str ''sandbox-1'')"
    by (simp add: start_facts numeral_2_eq_2)
  have "read_prop (cell (store start_state) 1) ''text'' = Prim (Str ''A contact form'')"
    by (simp add: start_facts cell_def read_prop_def)
  with a b [of "''context''"] b [of "''text''"] c show ?thesis
    by simp
qed

end
